theory Spec2Isabelle
  imports Complex_Main "HOL-Library.Word"
begin

section \<open>Data model\<close>

text \<open>
  The local path of \<^verbatim>\<open>app.py\<close> works on PIL images and numpy arrays. A channel value is
  an unsigned byte. A two-dimensional array is the list of its rows; every array that numpy
  or PIL builds is rectangular, which \<open>rect\<close> records. A float64 value of numpy is the
  real number it denotes, and every float64 operation returns the exact result rounded to
  the nearest float64 (\<open>binary64\<close> below).
\<close>

type_synonym u8 = "8 word"
type_synonym rgb = "u8 \<times> u8 \<times> u8"
type_synonym rgba = "u8 \<times> u8 \<times> u8 \<times> u8"
type_synonym 'a grid = "'a list list"
type_synonym color = "real \<times> real \<times> real"

definition rect :: "nat \<Rightarrow> nat \<Rightarrow> 'a grid \<Rightarrow> bool" where
  "rect h w g = (length g = h \<and> list_all (\<lambda>row. length row = w) g)"

definition height :: "'a grid \<Rightarrow> nat" where
  "height g = length g"

definition width :: "'a grid \<Rightarrow> nat" where
  "width g = (case g of [] \<Rightarrow> 0 | row # _ \<Rightarrow> length row)"

text \<open>A PIL image in one of the two modes of the data model.\<close>

datatype pil_image = ImageRGB "rgb grid" | ImageRGBA "rgba grid"

text \<open>\<^verbatim>\<open>Image.convert('RGB')\<close> drops the alpha band; \<^verbatim>\<open>Image.convert('RGBA')\<close> adds an
  opaque one. Both copy the other bands.\<close>

fun convert_RGB :: "pil_image \<Rightarrow> rgb grid" where
  "convert_RGB (ImageRGB g) = g"
| "convert_RGB (ImageRGBA g) = map (map (\<lambda>(r, g, b, a). (r, g, b))) g"

fun convert_RGBA :: "pil_image \<Rightarrow> rgba grid" where
  "convert_RGBA (ImageRGB g) = map (map (\<lambda>(r, g, b). (r, g, b, 255))) g"
| "convert_RGBA (ImageRGBA g) = g"

section \<open>Python slices\<close>

text \<open>
  A slice bound of Python: a negative bound counts from the end, and every bound is clamped
  into \<open>0..n\<close>.
\<close>

definition slice_index :: "nat \<Rightarrow> int \<Rightarrow> nat" where
  "slice_index n i = (if i < 0 then nat (max 0 (int n + i)) else min n (nat i))"

text \<open>\<^verbatim>\<open>xs[a:b]\<close>\<close>

definition py_slice :: "int \<Rightarrow> int \<Rightarrow> 'a list \<Rightarrow> 'a list" where
  "py_slice a b xs =
     (let n = length xs; lo = slice_index n a; hi = slice_index n b
      in take (hi - lo) (drop lo xs))"

text \<open>\<^verbatim>\<open>xs[a:]\<close>\<close>

definition py_slice_from :: "int \<Rightarrow> 'a list \<Rightarrow> 'a list" where
  "py_slice_from a xs = drop (slice_index (length xs) a) xs"

section \<open>The heuristic mask: \<^verbatim>\<open>fallback_mask\<close>\<close>

text \<open>\<^verbatim>\<open>h, w = arr.shape[:2]\<close> and \<^verbatim>\<open>margin = max(5, min(h, w) // 20)\<close>\<close>

definition margin :: "'a grid \<Rightarrow> int" where
  "margin arr = max 5 (int (min (height arr) (width arr)) div 20)"

text \<open>
  The four corner blocks, each flattened row by row (\<^verbatim>\<open>reshape(-1, 3)\<close>) and
  concatenated along axis 0, in the order of the source: top-left, top-right, bottom-left,
  bottom-right.
\<close>

definition corners :: "'a grid \<Rightarrow> 'a list" where
  "corners arr =
     (let m = margin arr
      in concat (map (py_slice 0 m) (py_slice 0 m arr))
       @ concat (map (py_slice_from (- m)) (py_slice 0 m arr))
       @ concat (map (py_slice 0 m) (py_slice_from (- m) arr))
       @ concat (map (py_slice_from (- m)) (py_slice_from (- m) arr)))"

definition chan :: "u8 \<Rightarrow> real" where
  "chan x = real (unat x)"

subsection \<open>Rounding to float64\<close>

text \<open>The integer nearest to \<open>y\<close>, the even one of the two when \<open>y\<close> lies half way.\<close>

definition round_even :: "real \<Rightarrow> int" where
  "round_even y =
     (let f = \<lfloor>y\<rfloor>; r = y - of_int f
      in if r < 1 / 2 then f
         else if 1 / 2 < r then f + 1
         else if even f then f
         else f + 1)"

text \<open>
  The exponent of the unit in the last place of the float64 numbers around \<open>x\<close>: 52 below
  the exponent of \<open>x\<close>, which is at least \<open>-1022\<close> (below it the numbers are subnormal).
\<close>

definition ulp_exponent :: "real \<Rightarrow> int" where
  "ulp_exponent x = max \<lfloor>log 2 \<bar>x\<bar>\<rfloor> (- 1022) - 52"

text \<open>
  Rounding to nearest, ties to even, the rounding of every float64 operation of numpy.
  No value of this program comes near \<open>2 ^ 1024\<close>, where float64 overflows.
\<close>

definition binary64 :: "real \<Rightarrow> real" where
  "binary64 x =
     (if x = 0 then 0
      else of_int (round_even (x / 2 powr of_int (ulp_exponent x)))
           * 2 powr of_int (ulp_exponent x))"

text \<open>
  \<^verbatim>\<open>mean(axis=0)\<close> of an \<open>n \<times> 3\<close> array of bytes: the sum of each column in float64,
  divided by the number of rows. The sum is exact, since the float64 sum of fewer than
  \<open>2 ^ 45\<close> bytes stays below \<open>2 ^ 53\<close>; the division rounds. Of an array without rows
  numpy returns NaN, which is not represented here: an image has pixels.
\<close>

definition mean_axis0 :: "rgb list \<Rightarrow> color" where
  "mean_axis0 ps =
     (binary64 (sum_list (map (\<lambda>(r, g, b). chan r) ps) / real (length ps)),
      binary64 (sum_list (map (\<lambda>(r, g, b). chan g) ps) / real (length ps)),
      binary64 (sum_list (map (\<lambda>(r, g, b). chan b) ps) / real (length ps)))"

text \<open>Lines 114 to 122: the background colour.\<close>

definition estimate_background :: "rgb grid \<Rightarrow> color" where
  "estimate_background arr = mean_axis0 (corners arr)"

text \<open>\<^verbatim>\<open>arr - bg_color[None, None, :]\<close> at one pixel: the byte as a float64, minus the
  colour.\<close>

definition sub_color :: "rgb \<Rightarrow> color \<Rightarrow> color" where
  "sub_color p c = (case p of (r, g, b) \<Rightarrow> case c of (cr, cg, cb) \<Rightarrow>
     (binary64 (chan r - cr), binary64 (chan g - cg), binary64 (chan b - cb)))"

text \<open>
  \<^verbatim>\<open>np.linalg.norm(x, axis=2)\<close> at one pixel is \<^verbatim>\<open>sqrt(add.reduce((x.conj() * x).real))\<close>:
  the three squares, their sum from left to right, and the square root, each a float64
  operation.
\<close>

definition norm_axis2 :: "color \<Rightarrow> real" where
  "norm_axis2 v = (case v of (x, y, z) \<Rightarrow>
     binary64 (sqrt (binary64 (binary64 (binary64 (x * x) + binary64 (y * y))
                               + binary64 (z * z)))))"

text \<open>\<^verbatim>\<open>(diff > thresh).astype(np.uint8) * 255\<close> at one pixel.\<close>

definition mask_value :: "real \<Rightarrow> real \<Rightarrow> u8" where
  "mask_value thresh d = of_bool (d > thresh) * 255"

text \<open>Lines 123 to 125, with the threshold as a parameter.\<close>

definition compute_mask :: "rgb grid \<Rightarrow> color \<Rightarrow> real \<Rightarrow> u8 grid" where
  "compute_mask arr bg_color thresh =
     map (map (\<lambda>p. mask_value thresh (norm_axis2 (sub_color p bg_color)))) arr"

text \<open>Lines 112 to 126. The result is a two-dimensional array of bytes.\<close>

datatype 'a ndarray =
    Arr0 'a
  | Arr1 "'a list"
  | Arr2 "'a grid"
  | Arr3 nat "'a list grid"
  | ArrN nat "'a list"

text \<open>
  \<open>Arr3 c a\<close> is an array of shape \<open>(h, w, c)\<close>: the length \<open>c\<close> of the last axis is kept
  beside the pixels, since an array without pixels has one too. \<open>ArrN k xs\<close> is an array
  of \<open>k + 4\<close> dimensions with the elements \<open>xs\<close>.
\<close>

fun ndim :: "'a ndarray \<Rightarrow> nat" where
  "ndim (Arr0 _) = 0"
| "ndim (Arr1 _) = 1"
| "ndim (Arr2 _) = 2"
| "ndim (Arr3 _ _) = 3"
| "ndim (ArrN k _) = k + 4"

fun elements :: "'a ndarray \<Rightarrow> 'a list" where
  "elements (Arr0 x) = [x]"
| "elements (Arr1 xs) = xs"
| "elements (Arr2 g) = concat g"
| "elements (Arr3 _ a) = concat (concat a)"
| "elements (ArrN _ xs) = xs"

definition cube :: "nat \<Rightarrow> nat \<Rightarrow> nat \<Rightarrow> 'a list grid \<Rightarrow> bool" where
  "cube h w c a = (rect h w a \<and> list_all (list_all (\<lambda>p. length p = c)) a)"

definition fallback_mask :: "pil_image \<Rightarrow> u8 ndarray" where
  "fallback_mask pil_image =
     (let arr = convert_RGB pil_image;
          bg_color = estimate_background arr;
          thresh = 30
      in Arr2 (compute_mask arr bg_color thresh))"

section \<open>Compositing: \<^verbatim>\<open>apply_mask_and_save\<close>\<close>

text \<open>
  The exceptions of the local path. \<open>Raised c\<close> is an exception of any other subclass
  \<open>c\<close> of \<^verbatim>\<open>Exception\<close>; \<open>RaisedBase c\<close> is one of any other class \<open>c\<close> that derives
  from \<^verbatim>\<open>BaseException\<close> only, as \<^verbatim>\<open>KeyboardInterrupt\<close> and \<^verbatim>\<open>SystemExit\<close> do.
\<close>

datatype exn =
    FileNotFoundError
  | RuntimeError
  | IndexError
  | TypeError
  | OverflowError
  | ValueError string
  | Raised string
  | KeyboardInterrupt
  | SystemExit
  | RaisedBase string

text \<open>What \<^verbatim>\<open>except Exception\<close> catches.\<close>

fun is_Exception :: "exn \<Rightarrow> bool" where
  "is_Exception KeyboardInterrupt = False"
| "is_Exception SystemExit = False"
| "is_Exception (RaisedBase _) = False"
| "is_Exception _ = True"

text \<open>
  \<^verbatim>\<open>Image.fromarray(a, mode='L')\<close>: a one-dimensional array of \<open>n\<close> bytes is an image of
  width 1 and height \<open>n\<close>, and a zero-dimensional array has no \<^verbatim>\<open>shape[0]\<close>. More than
  two dimensions are refused, with a \<^verbatim>\<open>ValueError\<close> or a \<^verbatim>\<open>TypeError\<close> according to
  the version of PIL and the length of the last axes; \<open>Raised ''fromarray''\<close> stands for
  either.
\<close>

fun fromarray_L :: "u8 ndarray \<Rightarrow> exn + u8 grid" where
  "fromarray_L (Arr0 _) = Inl IndexError"
| "fromarray_L (Arr1 xs) = Inr (map (\<lambda>x. [x]) xs)"
| "fromarray_L (Arr2 g) = Inr g"
| "fromarray_L (Arr3 _ _) = Inl (Raised ''fromarray'')"
| "fromarray_L (ArrN _ _) = Inl (Raised ''fromarray'')"

text \<open>
  \<^verbatim>\<open>ImageFilter.GaussianBlur\<close> is code of PIL. A filter returns an image of the size and
  mode of its argument; the value of each pixel of the result, a function of the argument
  and of the position, is the parameter \<open>K\<close>.
\<close>

type_synonym kernel = "u8 grid \<Rightarrow> nat \<Rightarrow> nat \<Rightarrow> u8"

definition gaussian_blur :: "kernel \<Rightarrow> u8 grid \<Rightarrow> u8 grid" where
  "gaussian_blur K g = map (\<lambda>i. map (\<lambda>j. K g i j) [0..<length (g ! i)]) [0..<length g]"

definition set_alpha :: "rgba \<Rightarrow> u8 \<Rightarrow> rgba" where
  "set_alpha p a = (case p of (r, g, b, _) \<Rightarrow> (r, g, b, a))"

text \<open>
  \<^verbatim>\<open>Image.putalpha\<close> with an image of mode L: PIL's \<^verbatim>\<open>putband\<close> refuses a band of
  another size with \<^verbatim>\<open>ValueError: images do not match\<close>, and otherwise overwrites band 3.
\<close>

definition putalpha :: "rgba grid \<Rightarrow> u8 grid \<Rightarrow> exn + rgba grid" where
  "putalpha pil alpha =
     (if width alpha \<noteq> width pil \<or> height alpha \<noteq> height pil
      then Inl (ValueError ''images do not match'')
      else Inr (map2 (map2 set_alpha) pil alpha))"

text \<open>
  Lines 129 to 134. The mask is an array of bytes already, so \<^verbatim>\<open>astype('uint8')\<close>
  leaves it as it is. The result is the image written to \<^verbatim>\<open>out_path\<close>; PNG stores the
  four bands as they are.
\<close>

definition apply_mask_and_save :: "kernel \<Rightarrow> pil_image \<Rightarrow> u8 ndarray \<Rightarrow> exn + rgba grid" where
  "apply_mask_and_save K pil_image mask_arr =
     (let pil = convert_RGBA pil_image
      in case fromarray_L mask_arr of
           Inl e \<Rightarrow> Inl e
         | Inr mask_img \<Rightarrow> putalpha pil (gaussian_blur K mask_img))"

definition rgb_of :: "rgba \<Rightarrow> rgb" where
  "rgb_of p = (case p of (r, g, b, a) \<Rightarrow> (r, g, b))"

definition alpha_of :: "rgba \<Rightarrow> u8" where
  "alpha_of p = (case p of (r, g, b, a) \<Rightarrow> a)"

section \<open>The model hook: \<^verbatim>\<open>load_pickle_model\<close> and \<^verbatim>\<open>process_local\<close>\<close>

text \<open>
  What \<^verbatim>\<open>predict\<close> returns: an array of integers, an array of finite floats, or
  something for which \<^verbatim>\<open>np.asarray(...).astype('uint8')\<close> raises \<open>e\<close>.
\<close>

datatype pyobj = IntArray "int ndarray" | FloatArray "real ndarray" | Unconvertible exn

text \<open>
  An integer that a 64-bit dtype of numpy holds, signed or unsigned. Integers beyond make
  an array of Python objects, whose cast raises \<^verbatim>\<open>OverflowError\<close>.
\<close>

definition fits_64 :: "int \<Rightarrow> bool" where
  "fits_64 i = (- (2 ^ 63) \<le> i \<and> i < 2 ^ 64)"

text \<open>The cast of an integer to \<^verbatim>\<open>uint8\<close> keeps its low eight bits.\<close>

definition int_to_uint8 :: "int \<Rightarrow> u8" where
  "int_to_uint8 i = word_of_int i"

text \<open>Truncation toward zero.\<close>

definition trunc :: "real \<Rightarrow> int" where
  "trunc x = (if x < 0 then \<lceil>x\<rceil> else \<lfloor>x\<rfloor>)"

text \<open>
  The cast of a float64 to \<^verbatim>\<open>uint8\<close>, as numpy does it on x86-64: the float is converted
  to a 32-bit integer, truncated toward zero, and the low eight bits are kept; a float
  that no 32-bit integer holds gives 0.
\<close>

definition float_to_uint8 :: "real \<Rightarrow> u8" where
  "float_to_uint8 x =
     (let i = trunc x
      in if - (2 ^ 31) \<le> i \<and> i < 2 ^ 31 then word_of_int i else 0)"

fun asarray_uint8 :: "pyobj \<Rightarrow> exn + u8 ndarray" where
  "asarray_uint8 (IntArray a) =
     (if list_all fits_64 (elements a)
      then Inr (map_ndarray int_to_uint8 a)
      else Inl OverflowError)"
| "asarray_uint8 (FloatArray a) = Inr (map_ndarray float_to_uint8 a)"
| "asarray_uint8 (Unconvertible e) = Inl e"

text \<open>An unpickled object: with a \<^verbatim>\<open>predict\<close> method, which returns or raises, or
  without one.\<close>

datatype model = NoPredict | Predictor "rgb grid \<Rightarrow> exn + pyobj"

text \<open>A file of \<^verbatim>\<open>MODEL_DIR\<close>: one for which \<^verbatim>\<open>pickle.load\<close> raises, or a pickled
  object.\<close>

datatype pickle_file = Fails exn | Pickled model

type_synonym model_dir = "string \<rightharpoonup> pickle_file"

text \<open>
  Lines 100 to 109. The \<^verbatim>\<open>except Exception\<close> of line 108 turns what \<^verbatim>\<open>pickle.load\<close>
  raises into a \<^verbatim>\<open>RuntimeError\<close>, unless it is no \<^verbatim>\<open>Exception\<close>.
\<close>

definition load_pickle_model :: "model_dir \<Rightarrow> string \<Rightarrow> exn + model" where
  "load_pickle_model dir name =
     (case dir name of
        None \<Rightarrow> Inl FileNotFoundError
      | Some (Fails e) \<Rightarrow> (if is_Exception e then Inl RuntimeError else Inl e)
      | Some (Pickled model) \<Rightarrow> Inr model)"

text \<open>\<^verbatim>\<open>mask[..., 0]\<close> on an array of shape \<open>(h, w, c)\<close>: index 0 of the last axis, which is
  out of bounds when \<open>c = 0\<close>.\<close>

definition first_channel :: "nat \<Rightarrow> 'a list grid \<Rightarrow> exn + 'a grid" where
  "first_channel c a =
     (if c = 0 then Inl IndexError else Inr (map (map hd) a))"

text \<open>Lines 185 to 194: the body of the \<^verbatim>\<open>try\<close>.\<close>

definition predict_mask :: "model_dir \<Rightarrow> string \<Rightarrow> pil_image \<Rightarrow> exn + u8 ndarray" where
  "predict_mask dir model_name pil =
     (case load_pickle_model dir model_name of
        Inl e \<Rightarrow> Inl e
      | Inr model \<Rightarrow>
          (let arr = convert_RGB pil
           in case model of
                NoPredict \<Rightarrow> Inl RuntimeError
              | Predictor predict \<Rightarrow>
                  (case predict arr of
                     Inl e \<Rightarrow> Inl e
                   | Inr pred \<Rightarrow>
                       (case asarray_uint8 pred of
                          Inl e \<Rightarrow> Inl e
                        | Inr mask_arr \<Rightarrow>
                            (if ndim mask_arr = 3
                             then (case mask_arr of
                                     Arr3 c a \<Rightarrow>
                                       (case first_channel c a of
                                          Inl e \<Rightarrow> Inl e
                                        | Inr g \<Rightarrow> Inr (Arr2 g))
                                   | _ \<Rightarrow> Inr mask_arr)
                             else Inr mask_arr)))))"

text \<open>
  Lines 183 to 196: \<^verbatim>\<open>except Exception\<close> replaces a failure by the heuristic when the
  exception is an \<^verbatim>\<open>Exception\<close>; any other goes on to the caller.
\<close>

definition local_mask :: "model_dir \<Rightarrow> string \<Rightarrow> pil_image \<Rightarrow> exn + u8 ndarray" where
  "local_mask dir model_name pil =
     (case predict_mask dir model_name pil of
        Inl e \<Rightarrow> (if is_Exception e then Inr (fallback_mask pil) else Inl e)
      | Inr mask_arr \<Rightarrow> Inr mask_arr)"

text \<open>
  What \<^verbatim>\<open>process_local\<close> returns: the URLs of the upload and of the result, here the
  image written as the result, or status 500 with the text of an exception.
\<close>

datatype response = Success "rgba grid" | Error500 exn

text \<open>
  Lines 180 to 206, from the opened upload on. \<open>Inl e\<close> is an exception that leaves
  \<^verbatim>\<open>process_local\<close>.
\<close>

definition process_local :: "kernel \<Rightarrow> model_dir \<Rightarrow> string \<Rightarrow> pil_image \<Rightarrow> exn + response" where
  "process_local K dir model_name upload =
     (let pil = ImageRGBA (convert_RGBA upload)
      in case local_mask dir model_name pil of
           Inl e \<Rightarrow> Inl e
         | Inr mask_arr \<Rightarrow>
             (case apply_mask_and_save K pil mask_arr of
                Inr out \<Rightarrow> Inr (Success out)
              | Inl e \<Rightarrow> (if is_Exception e then Inr (Error500 e) else Inl e)))"


section \<open>What the specification says of the two stages\<close>

text \<open>The pixels of rows \<open>r0..<r1\<close> and columns \<open>c0..<c1\<close>, row by row.\<close>

definition region :: "'a grid \<Rightarrow> nat \<Rightarrow> nat \<Rightarrow> nat \<Rightarrow> nat \<Rightarrow> 'a list" where
  "region arr r0 r1 c0 c1 = concat (map (\<lambda>i. map (\<lambda>j. arr ! i ! j) [c0..<c1]) [r0..<r1])"

definition spec_margin :: "nat \<Rightarrow> nat \<Rightarrow> nat" where
  "spec_margin h w = max 5 (min h w div 20)"

text \<open>
  The four \<open>m \<times> m\<close> corner squares of an \<open>h \<times> w\<close> image, each clamped to the image,
  concatenated; a pixel that lies in several squares occurs once for each.
\<close>

definition spec_corner_pixels :: "nat \<Rightarrow> nat \<Rightarrow> 'a grid \<Rightarrow> 'a list" where
  "spec_corner_pixels h w arr =
     (let m = spec_margin h w; mh = min m h; mw = min m w
      in region arr 0 mh 0 mw
       @ region arr 0 mh (w - mw) w
       @ region arr (h - mh) h 0 mw
       @ region arr (h - mh) h (w - mw) w)"

definition spec_mean :: "rgb list \<Rightarrow> color" where
  "spec_mean ps =
     ((\<Sum>p\<leftarrow>ps. chan (fst p)) / real (length ps),
      (\<Sum>p\<leftarrow>ps. chan (fst (snd p))) / real (length ps),
      (\<Sum>p\<leftarrow>ps. chan (snd (snd p))) / real (length ps))"

text \<open>The mean of each channel rounded to float64.\<close>

definition spec_mean_rounded :: "rgb list \<Rightarrow> color" where
  "spec_mean_rounded ps =
     (binary64 (fst (spec_mean ps)), binary64 (fst (snd (spec_mean ps))),
      binary64 (snd (snd (spec_mean ps))))"

text \<open>The Euclidean distance in RGB space between a pixel and a colour.\<close>

definition spec_distance :: "rgb \<Rightarrow> color \<Rightarrow> real" where
  "spec_distance p c =
     sqrt ((chan (fst p) - fst c)\<^sup>2 + (chan (fst (snd p)) - fst (snd c))\<^sup>2
           + (chan (snd (snd p)) - snd (snd c))\<^sup>2)"

text \<open>
  The same distance computed in float64: the three differences, their squares, the sum of
  the squares taken from left to right and its square root, each rounded.
\<close>

definition float_distance :: "rgb \<Rightarrow> color \<Rightarrow> real" where
  "float_distance p c =
     (let dr = binary64 (chan (fst p) - fst c);
          dg = binary64 (chan (fst (snd p)) - fst (snd c));
          db = binary64 (chan (snd (snd p)) - snd (snd c));
          s = binary64 (binary64 (binary64 (dr\<^sup>2) + binary64 (dg\<^sup>2)) + binary64 (db\<^sup>2))
      in binary64 (sqrt s))"

section \<open>Lemmas on slices\<close>

lemma rect_length: "rect h w g \<Longrightarrow> length g = h"
  by (simp add: rect_def)

lemma rect_row: "rect h w g \<Longrightarrow> i < h \<Longrightarrow> length (g ! i) = w"
  by (simp add: rect_def list_all_length)

lemma rect_width: "rect h w g \<Longrightarrow> 0 < h \<Longrightarrow> width g = w"
  by (cases g) (simp_all add: rect_def width_def)

lemma take_as_nth: "n \<le> length xs \<Longrightarrow> take n xs = map (\<lambda>i. xs ! i) [0..<n]"
  by (rule nth_equalityI) simp_all

lemma drop_as_nth: "drop k xs = map (\<lambda>i. xs ! i) [k..<length xs]"
  by (rule nth_equalityI) simp_all

lemma py_slice_0: "0 \<le> m \<Longrightarrow> py_slice 0 m xs = take (nat m) xs"
  by (simp add: py_slice_def slice_index_def Let_def min_def)

lemma py_slice_from_neg: "0 < m \<Longrightarrow> py_slice_from (- m) xs = drop (length xs - nat m) xs"
  by (auto simp: py_slice_from_def slice_index_def max_def nat_diff_distrib' intro!: arg_cong2[where f=drop])

lemma take_nth_min: "take k xs = map (\<lambda>i. xs ! i) [0..<min k (length xs)]"
  by (rule nth_equalityI) simp_all

lemma drop_nth_from: "drop (length xs - k) xs = map (\<lambda>i. xs ! i) [length xs - min k (length xs)..<length xs]"
  by (rule nth_equalityI) (simp_all add: min_def)

lemma margin_spec: "rect h w arr \<Longrightarrow> 0 < h \<Longrightarrow> margin arr = int (spec_margin h w)"
  by (simp add: margin_def spec_margin_def height_def rect_width rect_length zdiv_int)

lemma region_rows:
  assumes "rect h w arr" and "r1 \<le> h"
    and "\<And>row. length row = w \<Longrightarrow> f row = map (\<lambda>j. row ! j) [c0..<c1]"
  shows "concat (map f (map (\<lambda>i. arr ! i) [r0..<r1])) = region arr r0 r1 c0 c1"
proof -
  have "map f (map (\<lambda>i. arr ! i) [r0..<r1]) = map (\<lambda>i. map (\<lambda>j. arr ! i ! j) [c0..<c1]) [r0..<r1]"
    using assms by (auto simp: rect_row)
  then show ?thesis by (simp only: region_def)
qed

lemma corners_spec:
  assumes "rect h w arr" and "0 < h"
  shows "corners arr = spec_corner_pixels h w arr"
proof -
  define m where "m = spec_margin h w"
  have m: "margin arr = int m" "0 < m" 
    using assms by (simp_all add: margin_spec m_def spec_margin_def)
  have len: "length arr = h" using assms by (simp add: rect_length)
  have top: "py_slice 0 (int m) arr = map (\<lambda>i. arr ! i) [0..<min m h]"
    by (simp add: py_slice_0 len take_nth_min)
  have bot: "py_slice_from (- int m) arr = map (\<lambda>i. arr ! i) [h - min m h..<h]"
    using m(2) drop_nth_from[of arr m] by (simp add: py_slice_from_neg len)
  have left: "\<And>row. length row = w \<Longrightarrow> py_slice 0 (int m) row = map (\<lambda>j. row ! j) [0..<min m w]"
    by (simp add: py_slice_0 take_nth_min)
  have right: "py_slice_from (- int m) row = map (\<lambda>j. row ! j) [w - min m w..<w]"
    if "length row = w" for row :: "'a list"
    using m(2) that drop_nth_from[of row m] by (simp add: py_slice_from_neg)
  show ?thesis
    unfolding corners_def spec_corner_pixels_def Let_def m(1) m_def[symmetric] top bot
    using region_rows[OF assms(1) _ left] region_rows[OF assms(1) _ right]
    by simp
qed

lemma length_region: "length (region arr r0 r1 c0 c1) = (r1 - r0) * (c1 - c0)"
  by (simp add: region_def length_concat comp_def sum_list_triv)

lemma length_spec_corner_pixels:
  "length (spec_corner_pixels h w arr) = 4 * (min (spec_margin h w) h * min (spec_margin h w) w)"
  by (simp add: spec_corner_pixels_def Let_def length_region)

section \<open>The compositor\<close>

lemma rect_gaussian_blur: "rect h w g \<Longrightarrow> rect h w (gaussian_blur K g)"
  by (simp add: rect_def gaussian_blur_def list_all_length)

lemma rect_size: "rect h w g \<Longrightarrow> height g = h \<and> width g = (if h = 0 then 0 else w)"
  by (cases g) (auto simp: rect_def height_def width_def)

lemma map2_set_alpha_rgb:
  "length row = length arow \<Longrightarrow> map rgb_of (map2 set_alpha row arow) = map rgb_of row"
  by (induction row arow rule: list_induct2) (auto simp: rgb_of_def set_alpha_def)

lemma map2_set_alpha_alpha:
  "length row = length arow \<Longrightarrow> map alpha_of (map2 set_alpha row arow) = arow"
  by (induction row arow rule: list_induct2) (auto simp: alpha_of_def set_alpha_def)

lemma putalpha_grid_rgb:
  assumes "rect h w pil" and "rect h w alpha"
  shows "map (map rgb_of) (map2 (map2 set_alpha) pil alpha) = map (map rgb_of) pil"
proof (rule nth_equalityI)
  show "length (map (map rgb_of) (map2 (map2 set_alpha) pil alpha)) = length (map (map rgb_of) pil)"
    using assms by (simp add: rect_length)
next
  fix i assume "i < length (map (map rgb_of) (map2 (map2 set_alpha) pil alpha))"
  then have i: "i < h" using assms by (simp add: rect_length)
  then have "length (pil ! i) = length (alpha ! i)"
    using assms by (simp add: rect_row)
  from map2_set_alpha_rgb [OF this]
  show "map (map rgb_of) (map2 (map2 set_alpha) pil alpha) ! i = map (map rgb_of) pil ! i"
    using i assms by (simp add: rect_length)
qed

lemma putalpha_grid_alpha:
  assumes "rect h w pil" and "rect h w alpha"
  shows "map (map alpha_of) (map2 (map2 set_alpha) pil alpha) = alpha"
proof (rule nth_equalityI)
  show "length (map (map alpha_of) (map2 (map2 set_alpha) pil alpha)) = length alpha"
    using assms by (simp add: rect_length)
next
  fix i assume "i < length (map (map alpha_of) (map2 (map2 set_alpha) pil alpha))"
  then have i: "i < h" using assms by (simp add: rect_length)
  then have "length (pil ! i) = length (alpha ! i)"
    using assms by (simp add: rect_row)
  from map2_set_alpha_alpha [OF this]
  show "map (map alpha_of) (map2 (map2 set_alpha) pil alpha) ! i = alpha ! i"
    using i assms by (simp add: rect_length)
qed

lemma rect_putalpha_grid:
  assumes "rect h w pil" and "rect h w alpha"
  shows "rect h w (map2 (map2 set_alpha) pil alpha)"
  using assms
  by (simp add: rect_def list_all_length)

lemma putalpha_ok:
  assumes "rect h w pil" and "rect h w alpha"
  shows "putalpha pil alpha = Inr (map2 (map2 set_alpha) pil alpha)"
  using rect_size [OF assms(1)] rect_size [OF assms(2)] by (simp add: putalpha_def)

lemma rgb_of_opaque: "rgb_of \<circ> (\<lambda>(r, g, b). (r, g, b, 255)) = id"
  by (auto simp: fun_eq_iff rgb_of_def)

lemma rgb_of_fun: "(\<lambda>(r, g, b, a). (r, g, b)) = rgb_of"
  by (auto simp: fun_eq_iff rgb_of_def)

lemma rgb_of_convert_RGBA: "map (map rgb_of) (convert_RGBA img) = convert_RGB img"
  by (cases img) (simp_all add: rgb_of_opaque rgb_of_fun)

lemma apply_mask_and_save_Arr2:
  assumes "rect h w (convert_RGBA img)" and "rect h w m"
  shows "\<exists>out. apply_mask_and_save K img (Arr2 m) = Inr out
             \<and> rect h w out
             \<and> map (map rgb_of) out = convert_RGB img
             \<and> map (map alpha_of) out = gaussian_blur K m"
proof -
  let ?alpha = "gaussian_blur K m"
  let ?out = "map2 (map2 set_alpha) (convert_RGBA img) ?alpha"
  have b: "rect h w ?alpha" by (rule rect_gaussian_blur [OF assms(2)])
  have "apply_mask_and_save K img (Arr2 m) = Inr ?out"
    by (simp add: apply_mask_and_save_def putalpha_ok [OF assms(1) b])
  moreover have "rect h w ?out" by (rule rect_putalpha_grid [OF assms(1) b])
  moreover have "map (map rgb_of) ?out = convert_RGB img"
    by (simp only: putalpha_grid_rgb [OF assms(1) b] rgb_of_convert_RGBA)
  moreover have "map (map alpha_of) ?out = ?alpha"
    by (rule putalpha_grid_alpha [OF assms(1) b])
  ultimately show ?thesis by blast
qed

text \<open>
  Claim C4. For an image and a mask of the same height and width, for any blur,
  \<^verbatim>\<open>apply_mask_and_save\<close> succeeds; the image it writes has the size of the input, its
  alpha band is the blurred mask, and its RGB bands are the RGB bands of the input at every
  pixel, whatever the alpha there.
\<close>

theorem apply_mask_alpha_only:
  assumes "rect h w (convert_RGBA img)" and "rect h w m"
  shows "\<exists>out. apply_mask_and_save K img (Arr2 m) = Inr out
             \<and> rect h w out
             \<and> map (map rgb_of) out = convert_RGB img
             \<and> map (map alpha_of) out = gaussian_blur K m"
  using assms by (rule apply_mask_and_save_Arr2)

text \<open>Two pixels, the first made fully transparent; the blur here leaves the mask as it is.\<close>

theorem apply_mask_alpha_only_witness:
  "rect 1 2 (convert_RGBA (ImageRGBA [[(1, 2, 3, 4), (5, 6, 7, 8)]]))
   \<and> rect 1 2 [[0, 255 :: u8]]
   \<and> apply_mask_and_save (\<lambda>g i j. g ! i ! j) (ImageRGBA [[(1, 2, 3, 4), (5, 6, 7, 8)]])
         (Arr2 [[0, 255]]) = Inr [[(1, 2, 3, 0), (5, 6, 7, 255)]]"
  using apply_mask_alpha_only [of 1 2 "ImageRGBA [[(1, 2, 3, 4), (5, 6, 7, 8)]]" "[[0, 255]]"
      "\<lambda>g i j. g ! i ! j"]
  by (simp add: rect_def apply_mask_and_save_def putalpha_def gaussian_blur_def width_def
      height_def set_alpha_def upt_rec)

text \<open>
  Claim C5. For an image of height and width at least 1 and a two-dimensional mask whose
  height or width differs from the image's, \<^verbatim>\<open>apply_mask_and_save\<close> writes nothing and
  fails with \<^verbatim>\<open>ValueError: images do not match\<close>.
\<close>

theorem apply_mask_shape_mismatch:
  assumes "rect h w (convert_RGBA img)" and "1 \<le> h" and "1 \<le> w"
    and "rect h' w' m" and "h' \<noteq> h \<or> w' \<noteq> w"
  shows "apply_mask_and_save K img (Arr2 m) = Inl (ValueError ''images do not match'')"
proof -
  have b: "rect h' w' (gaussian_blur K m)" by (rule rect_gaussian_blur [OF assms(4)])
  have "width (gaussian_blur K m) \<noteq> width (convert_RGBA img)
      \<or> height (gaussian_blur K m) \<noteq> height (convert_RGBA img)"
    using rect_size [OF assms(1)] rect_size [OF b] assms(2,3,5) by auto
  then show ?thesis
    by (simp add: apply_mask_and_save_def putalpha_def)
qed

text \<open>A mask of two pixels for an image of one.\<close>

theorem apply_mask_shape_mismatch_witness:
  "rect 1 1 (convert_RGBA (ImageRGBA [[(1, 2, 3, 4)]]))
   \<and> rect 1 2 [[0, 255 :: u8]]
   \<and> apply_mask_and_save (\<lambda>g i j. g ! i ! j) (ImageRGBA [[(1, 2, 3, 4)]]) (Arr2 [[0, 255]])
       = Inl (ValueError ''images do not match'')"
  using apply_mask_shape_mismatch [of 1 1 "ImageRGBA [[(1, 2, 3, 4)]]" 1 2 "[[0, 255]]"
      "\<lambda>g i j. g ! i ! j"]
  by (simp add: rect_def)

section \<open>Lemmas on rounding\<close>

lemma round_even_of_int: "round_even (of_int m) = m"
  by (simp add: round_even_def)

lemma round_even_near: "\<bar>of_int (round_even y) - y\<bar> \<le> 1 / 2"
  unfolding round_even_def Let_def by (simp; linarith)

lemma round_even_unique:
  assumes "of_int m - 1 / 2 < y" and "y < of_int m + 1 / 2"
  shows "round_even y = m"
proof -
  have "\<bar>of_int (round_even y) - y\<bar> \<le> 1 / 2" by (rule round_even_near)
  with assms have "\<bar>real_of_int (round_even y) - real_of_int m\<bar> < 1" by linarith
  then have "\<bar>round_even y - m\<bar> < 1" by linarith
  then show ?thesis by linarith
qed

lemma two_powr_neg_nat: "(2::real) powr (- real a) = 1 / 2 ^ a"
  by (simp add: powr_minus powr_realpow inverse_eq_divide)

lemma two_powr_of_int_neg: "(2::real) powr of_int (- int a) = 1 / 2 ^ a"
  using two_powr_neg_nat [of a] by simp

lemma ulp_exponent_scaled:
  assumes "2 ^ 52 \<le> \<bar>x\<bar> * 2 ^ a" and "\<bar>x\<bar> * 2 ^ a < 2 ^ 53" and "a \<le> 1074"
  shows "ulp_exponent x = - int a"
proof -
  have pos: "0 < \<bar>x\<bar>" using assms(1) by (auto simp: zero_less_mult_iff intro: ccontr)
  have lo: "(2::real) powr of_int (52 - int a) \<le> \<bar>x\<bar>"
  proof -
    have "(2::real) powr of_int (52 - int a) = 2 ^ 52 / 2 ^ a"
      by (simp add: powr_diff powr_realpow)
    also have "\<dots> \<le> \<bar>x\<bar>" using assms(1) by (simp add: divide_le_eq)
    finally show ?thesis .
  qed
  have hi: "\<bar>x\<bar> < 2 powr of_int (52 - int a + 1)"
  proof -
    have "\<bar>x\<bar> < 2 ^ 53 / 2 ^ a" using assms(2) by (simp add: less_divide_eq)
    also have "\<dots> = (2::real) powr of_int (52 - int a + 1)"
      by (simp add: powr_diff powr_realpow powr_add)
    finally show ?thesis .
  qed
  have "\<lfloor>log 2 \<bar>x\<bar>\<rfloor> = 52 - int a"
    using lo hi pos by (simp add: floor_log_eq_powr_iff)
  then show ?thesis using assms(3) by (simp add: ulp_exponent_def)
qed

lemma binary64_nearest:
  assumes "2 ^ 52 \<le> \<bar>x\<bar> * 2 ^ a" and "\<bar>x\<bar> * 2 ^ a < 2 ^ 53" and "a \<le> 1074"
    and "of_int m - 1 / 2 < x * 2 ^ a" and "x * 2 ^ a < of_int m + 1 / 2"
  shows "binary64 x = of_int m / 2 ^ a"
proof -
  have nz: "x \<noteq> 0" using assms(1) by auto
  have e: "ulp_exponent x = - int a" by (rule ulp_exponent_scaled [OF assms(1,2,3)])
  have "x / 2 powr of_int (ulp_exponent x) = x * 2 ^ a"
    by (simp only: e two_powr_of_int_neg) simp
  then have "round_even (x / 2 powr of_int (ulp_exponent x)) = m"
    using round_even_unique [OF assms(4,5)] by simp
  then show ?thesis using nz by (simp add: binary64_def) (simp only: e two_powr_of_int_neg, simp)
qed


lemma binary64_0: "binary64 0 = 0"
  by (simp add: binary64_def)

lemma floor_log2_le:
  assumes "0 < x" and "x < 2 powr of_int (k + 1)"
  shows "\<lfloor>log 2 x\<rfloor> \<le> k"
proof -
  have "log 2 x < of_int (k + 1)"
    using assms by (simp add: log_less_iff)
  then have "\<lfloor>log 2 x\<rfloor> < k + 1" by (rule floor_less_iff [THEN iffD2])
  then show ?thesis by simp
qed

lemma binary64_exact:
  assumes x: "x = of_int m / 2 ^ a" and m: "\<bar>m\<bar> < 2 ^ 53" and a: "a \<le> 1074"
  shows "binary64 x = x"
proof (cases "x = 0")
  case True
  then show ?thesis by (simp add: binary64_0)
next
  case False
  then have pos: "0 < \<bar>x\<bar>" by simp
  have "\<bar>x\<bar> = real_of_int \<bar>m\<bar> / 2 ^ a" by (simp add: x abs_divide)
  also have "\<dots> < 2 ^ 53 / 2 ^ a"
    using m by (intro divide_strict_right_mono) (simp_all add: of_int_less_numeral_power_cancel_iff)
  also have "\<dots> = (2::real) powr of_int (52 - int a + 1)"
    by (simp add: powr_diff powr_realpow powr_add)
  finally have "\<lfloor>log 2 \<bar>x\<bar>\<rfloor> \<le> 52 - int a"
    by (rule floor_log2_le [OF pos])
  then have "ulp_exponent x \<le> - int a"
    using a by (simp add: ulp_exponent_def)
  then obtain k :: nat where e: "ulp_exponent x = - int (a + k)"
    by (metis add.inverse_inverse minus_le_iff nat_int of_nat_add zle_iff_zadd neg_le_iff_le)
  have "x / 2 powr of_int (ulp_exponent x) = of_int (m * 2 ^ k)"
    by (simp only: e two_powr_of_int_neg) (simp add: x power_add)
  then have "round_even (x / 2 powr of_int (ulp_exponent x)) = m * 2 ^ k"
    by (simp only: round_even_of_int)
  then have "binary64 x = of_int (m * 2 ^ k) * (1 / 2 ^ (a + k))"
    using False by (simp only: binary64_def e two_powr_of_int_neg if_False)
  also have "\<dots> = x" by (simp add: x power_add)
  finally show ?thesis .
qed

lemma binary64_of_nat: "n < 2 ^ 53 \<Longrightarrow> binary64 (real n) = real n"
  by (rule binary64_exact [where m = "int n" and a = 0]) simp_all

lemma binary64_chan: "binary64 (chan x) = chan x"
proof -
  have "unat x < 2 ^ 8" using unsigned_less [of x, where 'a = nat] by simp
  then have "unat x < 2 ^ 53" by simp
  then show ?thesis unfolding chan_def by (rule binary64_of_nat)
qed

lemma binary64_error:
  assumes "\<bar>x\<bar> < 256"
  shows "\<bar>binary64 x - x\<bar> \<le> 1 / 2 ^ 46"
proof (cases "x = 0")
  case True
  then show ?thesis by (simp add: binary64_0)
next
  case False
  then have pos: "0 < \<bar>x\<bar>" by simp
  define u :: real where "u = 2 powr of_int (ulp_exponent x)"
  have "\<bar>x\<bar> < (2::real) powr of_int (7 + 1)" using assms by simp
  then have "\<lfloor>log 2 \<bar>x\<bar>\<rfloor> \<le> 7" by (rule floor_log2_le [OF pos])
  then have "ulp_exponent x \<le> - 45" by (simp add: ulp_exponent_def)
  then have "real_of_int (ulp_exponent x) \<le> real_of_int (- 45)"
    by (simp only: of_int_le_iff)
  then have "u \<le> 2 powr of_int (- 45)"
    unfolding u_def by (rule powr_mono) simp
  then have u45: "u \<le> 1 / 2 ^ 45" using two_powr_of_int_neg [of 45] by simp
  have upos: "0 < u" by (simp add: u_def)
  have b: "binary64 x = of_int (round_even (x / u)) * u"
    using False by (simp add: binary64_def u_def)
  have "binary64 x - x = (of_int (round_even (x / u)) - x / u) * u"
    using upos by (simp add: b algebra_simps)
  then have "\<bar>binary64 x - x\<bar> = \<bar>of_int (round_even (x / u)) - x / u\<bar> * u"
    using upos by (simp add: abs_mult)
  also have "\<dots> \<le> 1 / 2 * u"
    using round_even_near [of "x / u"] upos by (intro mult_right_mono) simp_all
  also have "\<dots> \<le> 1 / 2 * (1 / 2 ^ 45)" using u45 by simp
  finally show ?thesis by simp
qed

section \<open>The background estimate\<close>

lemma mean_axis0_rounded: "mean_axis0 ps = spec_mean_rounded ps"
  by (simp add: mean_axis0_def spec_mean_rounded_def spec_mean_def case_prod_unfold)

lemma chan_bounds: "0 \<le> chan x \<and> chan x \<le> 255"
proof -
  have "unat x < 2 ^ 8" using unsigned_less [of x, where 'a = nat] by simp
  then have "unat x \<le> 255" by simp
  then have "real (unat x) \<le> real 255" by (simp only: of_nat_le_iff)
  moreover have "0 \<le> real (unat x)" by (rule of_nat_0_le_iff)
  ultimately show ?thesis unfolding chan_def by simp
qed

lemma sum_list_bounds:
  assumes "\<forall>p \<in> set ps. 0 \<le> f p \<and> f p \<le> (255 :: real)"
  shows "0 \<le> sum_list (map f ps) \<and> sum_list (map f ps) \<le> 255 * real (length ps)"
  using assms by (induction ps) (auto simp: algebra_simps)

lemma channel_mean_bounds:
  assumes "\<forall>p \<in> set ps. 0 \<le> f p \<and> f p \<le> (255 :: real)"
  shows "\<bar>sum_list (map f ps) / real (length ps)\<bar> < 256"
proof (cases "ps = []")
  case True
  then show ?thesis by simp
next
  case False
  then have n: "0 < real (length ps)" by simp
  from sum_list_bounds [OF assms]
  have "0 \<le> sum_list (map f ps) / real (length ps)"
    and "sum_list (map f ps) / real (length ps) \<le> 255"
    using n by (simp_all add: divide_le_eq)
  then show ?thesis by simp
qed

lemma spec_mean_rounded_close:
  "\<bar>fst (spec_mean_rounded ps) - fst (spec_mean ps)\<bar> \<le> 1 / 2 ^ 46
   \<and> \<bar>fst (snd (spec_mean_rounded ps)) - fst (snd (spec_mean ps))\<bar> \<le> 1 / 2 ^ 46
   \<and> \<bar>snd (snd (spec_mean_rounded ps)) - snd (snd (spec_mean ps))\<bar> \<le> 1 / 2 ^ 46"
  unfolding spec_mean_rounded_def spec_mean_def fst_conv snd_conv
  by (intro conjI binary64_error channel_mean_bounds ballI chan_bounds)

text \<open>
  Claim C1, as amended. For an image of height \<open>h \<ge> 1\<close> and width \<open>w \<ge> 1\<close>, the margin is
  \<open>max 5 (min h w div 20)\<close>; the pixels that the four slices of the source select are, in
  order, the pixels of the four corner squares of that side clamped to the image, a pixel
  in several squares occurring once for each; there are \<open>4 * min m h * min m w\<close> of them,
  at least one; and the background colour is, in each channel, the float64 nearest to the
  arithmetic mean over exactly these pixels, within \<open>1 / 2 ^ 46\<close> of that mean.
\<close>

theorem estimate_background_corner_mean:
  assumes "rect h w arr" and "1 \<le> h" and "1 \<le> w"
  shows "margin arr = int (max 5 (min h w div 20))
       \<and> corners arr = spec_corner_pixels h w arr
       \<and> length (corners arr) = 4 * (min (spec_margin h w) h * min (spec_margin h w) w)
       \<and> corners arr \<noteq> []
       \<and> estimate_background arr = spec_mean_rounded (spec_corner_pixels h w arr)
       \<and> \<bar>fst (estimate_background arr) - fst (spec_mean (spec_corner_pixels h w arr))\<bar>
           \<le> 1 / 2 ^ 46
       \<and> \<bar>fst (snd (estimate_background arr))
            - fst (snd (spec_mean (spec_corner_pixels h w arr)))\<bar> \<le> 1 / 2 ^ 46
       \<and> \<bar>snd (snd (estimate_background arr))
            - snd (snd (spec_mean (spec_corner_pixels h w arr)))\<bar> \<le> 1 / 2 ^ 46"
proof -
  have pos: "0 < h" using assms(2) by simp
  have c: "corners arr = spec_corner_pixels h w arr"
    by (rule corners_spec [OF assms(1) pos])
  have l: "length (corners arr) = 4 * (min (spec_margin h w) h * min (spec_margin h w) w)"
    by (simp only: c length_spec_corner_pixels)
  have "0 < min (spec_margin h w) h * min (spec_margin h w) w"
    using assms(2,3) by (simp add: spec_margin_def)
  then have ne: "corners arr \<noteq> []" using l by auto
  have m: "margin arr = int (max 5 (min h w div 20))"
    using margin_spec [OF assms(1) pos] by (simp add: spec_margin_def)
  have e: "estimate_background arr = spec_mean_rounded (spec_corner_pixels h w arr)"
    by (simp add: estimate_background_def mean_axis0_rounded c)
  from spec_mean_rounded_close [of "spec_corner_pixels h w arr"] m c l ne e
  show ?thesis by (simp only:) blast
qed

text \<open>A one by two image: the margin 5 is clamped to the image and every corner square is
  the whole image, so each pixel is counted four times.\<close>

theorem estimate_background_corner_mean_witness:
  "rect 1 2 [[(10, 20, 30), (50, 60, 70) :: rgb]]
   \<and> corners [[(10, 20, 30), (50, 60, 70) :: rgb]]
       = [(10, 20, 30), (50, 60, 70), (10, 20, 30), (50, 60, 70),
          (10, 20, 30), (50, 60, 70), (10, 20, 30), (50, 60, 70)]
   \<and> estimate_background [[(10, 20, 30), (50, 60, 70) :: rgb]] = (30, 40, 50)"
proof -
  have b: "binary64 30 = 30" "binary64 40 = 40" "binary64 50 = 50"
    using binary64_of_nat [of 30] binary64_of_nat [of 40] binary64_of_nat [of 50] by simp_all
  show ?thesis
    using estimate_background_corner_mean [of 1 2 "[[(10, 20, 30), (50, 60, 70)]]"]
    by (simp add: rect_def spec_corner_pixels_def spec_margin_def region_def spec_mean_def
        spec_mean_rounded_def chan_def upt_rec b)
qed

lemma exact_mean_example:
  "spec_mean (spec_corner_pixels 1 3 [[(194, 48, 14), (234, 62, 12), (242, 50, 6) :: rgb]])
     = (670 / 3, 160 / 3, 32 / 3)"
  by (simp add: spec_corner_pixels_def spec_margin_def region_def spec_mean_def chan_def upt_rec)

text \<open>
  Claim C1 as stated fails: on the one by three image below the means are
  \<open>670 / 3\<close>, \<open>160 / 3\<close> and \<open>32 / 3\<close>, which are no float64 numbers, and the estimate is made
  of the float64 numbers nearest to them.
\<close>

theorem estimate_background_exact_mean_counterexample:
  "rect 1 3 [[(194, 48, 14), (234, 62, 12), (242, 50, 6) :: rgb]]
   \<and> spec_mean (spec_corner_pixels 1 3 [[(194, 48, 14), (234, 62, 12), (242, 50, 6) :: rgb]])
       = (670 / 3, 160 / 3, 32 / 3)
   \<and> estimate_background [[(194, 48, 14), (234, 62, 12), (242, 50, 6) :: rgb]]
       = (7857843099839147 / 2 ^ 45, 7505999378950827 / 2 ^ 47, 6004799503160661 / 2 ^ 49)
   \<and> estimate_background [[(194, 48, 14), (234, 62, 12), (242, 50, 6) :: rgb]]
       \<noteq> spec_mean (spec_corner_pixels 1 3 [[(194, 48, 14), (234, 62, 12), (242, 50, 6)]])"
proof -
  let ?arr = "[[(194, 48, 14), (234, 62, 12), (242, 50, 6) :: rgb]]"
  have r: "rect 1 3 ?arr" by (simp add: rect_def)
  have c: "corners ?arr = spec_corner_pixels 1 3 ?arr"
    by (rule corners_spec [OF r]) simp
  have b1: "binary64 (670 / 3) = of_int 7857843099839147 / 2 ^ 45"
    by (rule binary64_nearest) simp_all
  have b2: "binary64 (160 / 3) = of_int 7505999378950827 / 2 ^ 47"
    by (rule binary64_nearest) simp_all
  have b3: "binary64 (32 / 3) = of_int 6004799503160661 / 2 ^ 49"
    by (rule binary64_nearest) simp_all
  have e: "estimate_background ?arr
       = (7857843099839147 / 2 ^ 45, 7505999378950827 / 2 ^ 47, 6004799503160661 / 2 ^ 49)"
    unfolding estimate_background_def mean_axis0_rounded c spec_mean_rounded_def
      exact_mean_example fst_conv snd_conv b1 b2 b3
    by simp
  have "(7857843099839147 :: real) / 2 ^ 45 \<noteq> 670 / 3" by simp
  with r e exact_mean_example show ?thesis by simp
qed

section \<open>Uniform images\<close>

lemma set_py_slice: "set (py_slice a b xs) \<subseteq> set xs"
  unfolding py_slice_def Let_def
  by (meson set_take_subset set_drop_subset subset_trans)

lemma set_py_slice_from: "set (py_slice_from a xs) \<subseteq> set xs"
  unfolding py_slice_from_def by (rule set_drop_subset)

lemma in_sliced_rows:
  assumes "p \<in> set (concat (map f rows))" and "set rows \<subseteq> set arr"
    and "\<And>row. set (f row) \<subseteq> set row"
  shows "\<exists>row \<in> set arr. p \<in> set row"
proof -
  from assms(1) obtain row where "row \<in> set rows" and "p \<in> set (f row)" by auto
  with assms(2,3) show ?thesis by blast
qed

lemma corners_subset:
  assumes "p \<in> set (corners arr)"
  shows "\<exists>row \<in> set arr. p \<in> set row"
proof -
  let ?m = "margin arr"
  from assms consider
      "p \<in> set (concat (map (py_slice 0 ?m) (py_slice 0 ?m arr)))"
    | "p \<in> set (concat (map (py_slice_from (- ?m)) (py_slice 0 ?m arr)))"
    | "p \<in> set (concat (map (py_slice 0 ?m) (py_slice_from (- ?m) arr)))"
    | "p \<in> set (concat (map (py_slice_from (- ?m)) (py_slice_from (- ?m) arr)))"
    unfolding corners_def Let_def set_append by blast
  then show ?thesis
  proof cases
    case 1 then show ?thesis by (rule in_sliced_rows) (rule set_py_slice)+
  next
    case 2 then show ?thesis by (rule in_sliced_rows) (rule set_py_slice set_py_slice_from)+
  next
    case 3 then show ?thesis by (rule in_sliced_rows) (rule set_py_slice set_py_slice_from)+
  next
    case 4 then show ?thesis by (rule in_sliced_rows) (rule set_py_slice_from)+
  qed
qed


lemma mean_axis0_replicate:
  assumes "0 < n"
  shows "mean_axis0 (replicate n (r, g, b)) = (chan r, chan g, chan b)"
proof -
  have "real n * c / real n = c" for c :: real using assms by simp
  then show ?thesis
    by (simp add: mean_axis0_def map_replicate sum_list_replicate binary64_chan)
qed

lemma norm_axis2_self: "norm_axis2 (sub_color (r, g, b) (chan r, chan g, chan b)) = 0"
  by (simp add: norm_axis2_def sub_color_def binary64_0)

lemma mask_value_cases: "mask_value t d = (if t < d then 255 else 0)"
  by (simp add: mask_value_def)

lemma rect_map: "rect h w g \<Longrightarrow> rect h w (map (map f) g)"
  by (simp add: rect_def list_all_iff)

lemma uniform_grid:
  assumes "rect h w g" and "\<forall>row \<in> set g. \<forall>p \<in> set row. f p = c"
  shows "map (map f) g = replicate h (replicate w c)"
proof (rule nth_equalityI)
  show "length (map (map f) g) = length (replicate h (replicate w c))"
    using assms(1) by (simp add: rect_length)
next
  fix i assume "i < length (map (map f) g)"
  then have i: "i < h" using assms(1) by (simp add: rect_length)
  then have mem: "g ! i \<in> set g" using assms(1) by (simp add: rect_length)
  have "map f (g ! i) = replicate w c"
  proof (rule nth_equalityI)
    show "length (map f (g ! i)) = length (replicate w c)"
      using assms(1) i by (simp add: rect_row)
  next
    fix j assume "j < length (map f (g ! i))"
    then have j: "j < length (g ! i)" by simp
    then have "g ! i ! j \<in> set (g ! i)" by simp
    with mem assms(2) have "f (g ! i ! j) = c" by blast
    with j assms(1) i show "map f (g ! i) ! j = replicate w c ! j"
      by (simp add: rect_row)
  qed
  with i assms(1) show "map (map f) g ! i = replicate h (replicate w c) ! i"
    by (simp add: rect_length)
qed

lemma uniform_image_estimate:
  assumes "rect h w arr" and "1 \<le> h" and "1 \<le> w"
    and "\<forall>row \<in> set arr. \<forall>p \<in> set row. p = (r, g, b)"
  shows "estimate_background arr = (chan r, chan g, chan b)
       \<and> (\<forall>t>0. compute_mask arr (estimate_background arr) t = replicate h (replicate w 0))"
proof -
  have "0 < h" using assms(2) by simp
  from corners_spec [OF assms(1) this]
  have len: "length (corners arr) = 4 * (min (spec_margin h w) h * min (spec_margin h w) w)"
    by (simp only: length_spec_corner_pixels)
  have "0 < min (spec_margin h w) h * min (spec_margin h w) w"
    using assms(2,3) by (simp add: spec_margin_def)
  with len have pos: "0 < length (corners arr)" by simp
  have "p = (r, g, b)" if "p \<in> set (corners arr)" for p
  proof -
    from corners_subset [OF that] obtain row where "row \<in> set arr" and "p \<in> set row"
      by blast
    with assms(4) show ?thesis by blast
  qed
  then have "corners arr = replicate (length (corners arr)) (r, g, b)"
    by (simp add: replicate_length_same)
  then have "mean_axis0 (corners arr) = mean_axis0 (replicate (length (corners arr)) (r, g, b))"
    by simp
  also have "\<dots> = (chan r, chan g, chan b)"
    by (rule mean_axis0_replicate [OF pos])
  finally have bg: "estimate_background arr = (chan r, chan g, chan b)"
    by (simp only: estimate_background_def)
  have "compute_mask arr (chan r, chan g, chan b) t = replicate h (replicate w 0)"
    if "0 < t" for t
    unfolding compute_mask_def
  proof (rule uniform_grid [OF assms(1)], intro ballI)
    fix row p assume "row \<in> set arr" and "p \<in> set row"
    with assms(4) have "p = (r, g, b)" by blast
    with that show "mask_value t (norm_axis2 (sub_color p (chan r, chan g, chan b))) = 0"
      by (simp add: norm_axis2_self mask_value_cases)
  qed
  with bg show ?thesis by simp
qed

text \<open>
  Claim C6. For an image of height and width at least 1 all of whose pixels are the colour
  \<open>(r, g, b)\<close>, the background estimate is exactly that colour, and for every threshold
  greater than 0 the mask computed against that estimate is 0 at every pixel.
\<close>

theorem uniform_image_background:
  assumes "rect h w arr" and "1 \<le> h" and "1 \<le> w"
    and "\<forall>row \<in> set arr. \<forall>p \<in> set row. p = (r, g, b)"
  shows "estimate_background arr = (chan r, chan g, chan b)
       \<and> (\<forall>t>0. compute_mask arr (estimate_background arr) t = replicate h (replicate w 0))"
  using assms by (rule uniform_image_estimate)

text \<open>Two grey pixels of value 128, threshold 30.\<close>

text \<open>Two grey pixels of value 128, threshold 30.\<close>

theorem uniform_image_background_witness:
  "rect 1 2 [[(128, 128, 128), (128, 128, 128) :: rgb]]
   \<and> estimate_background [[(128, 128, 128), (128, 128, 128) :: rgb]] = (128, 128, 128)
   \<and> compute_mask [[(128, 128, 128), (128, 128, 128)]]
        (estimate_background [[(128, 128, 128), (128, 128, 128)]]) 30 = [[0, 0]]"
proof -
  have two: "replicate 2 (0 :: u8) = [0, 0]"
    by (simp add: numeral_2_eq_2)
  have r: "rect 1 2 [[(128, 128, 128), (128, 128, 128) :: rgb]]"
    by (simp add: rect_def)
  have both: "estimate_background [[(128, 128, 128), (128, 128, 128) :: rgb]]
             = (chan 128, chan 128, chan 128)
       \<and> (\<forall>t>0. compute_mask [[(128, 128, 128), (128, 128, 128)]]
             (estimate_background [[(128, 128, 128), (128, 128, 128)]]) t
             = replicate 1 (replicate 2 0))"
    by (rule uniform_image_background [OF r]) simp_all
  note e = both [THEN conjunct1] and m = both [THEN conjunct2]
  have t: "compute_mask [[(128, 128, 128), (128, 128, 128)]]
             (estimate_background [[(128, 128, 128), (128, 128, 128)]]) 30
             = replicate 1 (replicate 2 0)"
    by (rule m [rule_format]) simp
  from e r t show ?thesis by (simp add: chan_def two)
qed

section \<open>The threshold mask\<close>

lemma binary64_nearestI:
  assumes "v = of_int m / 2 ^ a"
    and "2 ^ 52 \<le> \<bar>x\<bar> * 2 ^ a" and "\<bar>x\<bar> * 2 ^ a < 2 ^ 53" and "a \<le> 1074"
    and "of_int m - 1 / 2 < x * 2 ^ a" and "x * 2 ^ a < of_int m + 1 / 2"
  shows "binary64 x = v"
  unfolding assms(1) by (rule binary64_nearest [OF assms(2-6)])

lemma binary64_exactI:
  assumes "x = of_int m / 2 ^ a" and "\<bar>m\<bar> < 2 ^ 53" and "a \<le> 1074" and "v = x"
  shows "binary64 x = v"
  unfolding assms(4) by (rule binary64_exact [OF assms(1-3)])

lemma chan_numeral: "chan (numeral n) = real (unat (numeral n :: u8))"
  by (simp add: chan_def)

lemma norm_sub_color: "norm_axis2 (sub_color p c) = float_distance p c"
  by (cases p; cases c)
    (simp add: norm_axis2_def sub_color_def float_distance_def power2_eq_square Let_def)

lemma compute_mask_nth:
  "rect h w arr \<Longrightarrow> i < h \<Longrightarrow> j < w \<Longrightarrow>
   compute_mask arr bg t ! i ! j = (if t < float_distance (arr ! i ! j) bg then 255 else 0)"
  by (simp add: compute_mask_def rect_length rect_row norm_sub_color mask_value_cases)

lemma compute_mask_values:
  "row \<in> set (compute_mask arr bg t) \<Longrightarrow> v \<in> set row \<Longrightarrow> v = 0 \<or> v = 255"
  by (auto simp: compute_mask_def mask_value_cases)

text \<open>
  Claim C2, as amended. With threshold 30 the mask has the height and width of the image,
  its value at a pixel is 255 exactly when the distance between the pixel and the
  background colour, computed in float64 as \<open>float_distance\<close> says, is greater than 30,
  and 0 exactly when it is not, and no other value occurs.
\<close>

theorem compute_mask_threshold:
  assumes "rect h w arr"
  shows "rect h w (compute_mask arr bg 30)
       \<and> (\<forall>i<h. \<forall>j<w.
            (compute_mask arr bg 30 ! i ! j = 255 \<longleftrightarrow> float_distance (arr ! i ! j) bg > 30)
          \<and> (compute_mask arr bg 30 ! i ! j = 0 \<longleftrightarrow> \<not> float_distance (arr ! i ! j) bg > 30))
       \<and> (\<forall>row \<in> set (compute_mask arr bg 30). \<forall>v \<in> set row. v = 0 \<or> v = 255)"
proof -
  have r: "rect h w (compute_mask arr bg 30)"
    unfolding compute_mask_def by (rule rect_map [OF assms])
  have p: "\<forall>i<h. \<forall>j<w.
            (compute_mask arr bg 30 ! i ! j = 255 \<longleftrightarrow> float_distance (arr ! i ! j) bg > 30)
          \<and> (compute_mask arr bg 30 ! i ! j = 0 \<longleftrightarrow> \<not> float_distance (arr ! i ! j) bg > 30)"
    by (simp add: compute_mask_nth [OF assms])
  have v: "\<forall>row \<in> set (compute_mask arr bg 30). \<forall>v \<in> set row. v = 0 \<or> v = 255"
    using compute_mask_values by blast
  from r p v show ?thesis by blast
qed

lemma float_distance_eval:
  assumes "binary64 (chan r - cr) = dr" and "binary64 (chan g - cg) = dg"
    and "binary64 (chan b - cb) = db"
    and "binary64 (dr\<^sup>2) = sr" and "binary64 (dg\<^sup>2) = sg" and "binary64 (db\<^sup>2) = sb"
    and "binary64 (sr + sg) = t1" and "binary64 (t1 + sb) = t2" and "binary64 (sqrt t2) = d"
  shows "float_distance (r, g, b) (cr, cg, cb) = d"
  by (simp add: float_distance_def assms Let_def)

lemma sqrt_square_numeral: "sqrt 1600 = 40" "sqrt 900 = 30"
proof -
  have "sqrt ((40::real)\<^sup>2) = 40" "sqrt ((30::real)\<^sup>2) = 30" by simp_all
  then show "sqrt 1600 = 40" "sqrt 900 = 30" by simp_all
qed

lemma float_distance_black_40: "float_distance (0, 0, 40) (0, 0, 0) = 40"
proof (rule float_distance_eval)
  show "binary64 (chan 0 - 0) = 0" by (simp add: chan_def binary64_0)
  show "binary64 (chan 0 - 0) = 0" by (simp add: chan_def binary64_0)
  show "binary64 (chan 40 - 0) = 40"
    by (rule binary64_exactI [where m = 40 and a = 0]) (simp_all add: chan_def)
  show "binary64 (0\<^sup>2) = 0" by (simp add: binary64_0)
  show "binary64 (0\<^sup>2) = 0" by (simp add: binary64_0)
  show "binary64 (40\<^sup>2) = 1600"
    by (rule binary64_exactI [where m = 1600 and a = 0]) simp_all
  show "binary64 (0 + 0) = 0" by (simp add: binary64_0)
  show "binary64 (0 + 1600) = 1600"
    by (rule binary64_exactI [where m = 1600 and a = 0]) simp_all
  show "binary64 (sqrt 1600) = 40"
    by (rule binary64_exactI [where m = 40 and a = 0]) (simp_all add: sqrt_square_numeral)
qed

lemma float_distance_self_0: "float_distance (0, 0, 0) (0, 0, 0) = 0"
  by (rule float_distance_eval [where dr = 0 and dg = 0 and db = 0 and sr = 0 and sg = 0
        and sb = 0 and ?t1.0 = 0 and ?t2.0 = 0])
    (simp_all add: chan_def binary64_0)

text \<open>A black pixel and a pixel at distance 40 against a black background.\<close>

theorem compute_mask_threshold_witness:
  "rect 1 2 [[(0, 0, 0), (0, 0, 40) :: rgb]]
   \<and> compute_mask [[(0, 0, 0), (0, 0, 40)]] (0, 0, 0) 30 ! 0 ! 0 = 0
   \<and> compute_mask [[(0, 0, 0), (0, 0, 40)]] (0, 0, 0) 30 ! 0 ! 1 = 255"
  using compute_mask_threshold [of 1 2 "[[(0, 0, 0), (0, 0, 40)]]" "(0, 0, 0)"]
  by (simp add: rect_def float_distance_black_40 float_distance_self_0)


lemma sqrt_gt_30: "900 < x \<Longrightarrow> 30 < sqrt x"
  by (rule real_less_rsqrt) simp

lemma exact_mean_example_5:
  "spec_mean (spec_corner_pixels 1 5
      [[(85, 18, 2), (120, 25, 13), (120, 25, 13), (120, 25, 14), (120, 25, 14) :: rgb]])
     = (113, 118 / 5, 56 / 5)"
  by (simp add: spec_corner_pixels_def spec_margin_def region_def spec_mean_def chan_def upt_rec)

lemma estimate_background_example_5:
  "estimate_background
      [[(85, 18, 2), (120, 25, 13), (120, 25, 13), (120, 25, 14), (120, 25, 14) :: rgb]]
     = (113, 6642809450371482 / 2 ^ 48, 6305039478318694 / 2 ^ 49)"
proof -
  let ?arr = "[[(85, 18, 2), (120, 25, 13), (120, 25, 13), (120, 25, 14), (120, 25, 14) :: rgb]]"
  have r: "rect 1 5 ?arr" by (simp add: rect_def)
  have c: "corners ?arr = spec_corner_pixels 1 5 ?arr"
    by (rule corners_spec [OF r]) simp
  have b1: "binary64 113 = 113"
    by (rule binary64_exactI [where m = 113 and a = 0]) simp_all
  have b2: "binary64 (118 / 5) = 6642809450371482 / 2 ^ 48"
    by (rule binary64_nearestI [where m = 6642809450371482 and a = 48]) simp_all
  have b3: "binary64 (56 / 5) = 6305039478318694 / 2 ^ 49"
    by (rule binary64_nearestI [where m = 6305039478318694 and a = 49]) simp_all
  show ?thesis
    unfolding estimate_background_def mean_axis0_rounded c spec_mean_rounded_def
      exact_mean_example_5 fst_conv snd_conv b1 b2 b3
    by (rule refl)
qed

lemma float_distance_example_5:
  "float_distance (85, 18, 2) (113, 6642809450371482 / 2 ^ 48, 6305039478318694 / 2 ^ 49) = 30"
proof (rule float_distance_eval)
  show "binary64 (chan 85 - 113) = - 28"
    by (rule binary64_exactI [where m = "- 28" and a = 0]) (simp_all add: chan_def)
  show "binary64 (chan 18 - 6642809450371482 / 2 ^ 48) = - (1576259869579674 / 2 ^ 48)"
    by (rule binary64_exactI [where m = "- 1576259869579674" and a = 48])
      (simp_all add: chan_def)
  show "binary64 (chan 2 - 6305039478318694 / 2 ^ 49) = - (5179139571476070 / 2 ^ 49)"
    by (rule binary64_exactI [where m = "- 5179139571476070" and a = 49])
      (simp_all add: chan_def)
  show "binary64 ((- 28)\<^sup>2) = 784"
    by (rule binary64_exactI [where m = 784 and a = 0]) simp_all
  show "binary64 ((- (1576259869579674 / 2 ^ 48))\<^sup>2) = 8827055269646177 / 2 ^ 48"
    by (rule binary64_nearestI [where m = 8827055269646177 and a = 48])
      (simp_all add: power2_eq_square)
  show "binary64 ((- (5179139571476070 / 2 ^ 49))\<^sup>2) = 5956010507197480 / 2 ^ 46"
    by (rule binary64_nearestI [where m = 5956010507197480 and a = 46])
      (simp_all add: power2_eq_square)
  show "binary64 (784 + 8827055269646177 / 2 ^ 48) = 7171982406587515 / 2 ^ 43"
    by (rule binary64_nearestI [where m = 7171982406587515 and a = 43]) simp_all
  show "binary64 (7171982406587515 / 2 ^ 43 + 5956010507197480 / 2 ^ 46) = 900"
    by (rule binary64_nearestI [where m = 7916483719987200 and a = 43]) simp_all
  show "binary64 (sqrt 900) = 30"
    by (rule binary64_exactI [where m = 30 and a = 0]) (simp_all add: sqrt_square_numeral)
qed

lemma spec_distance_example_5:
  "30 < spec_distance (85, 18, 2)
          (113, 6642809450371482 / 2 ^ 48, 6305039478318694 / 2 ^ 49)"
  unfolding spec_distance_def fst_conv snd_conv
  by (rule sqrt_gt_30) (simp add: chan_def power2_eq_square)

text \<open>
  Claim C2 as stated fails at the threshold. On the one by five image below the background
  estimate is \<open>(113.0, 23.6, 11.2)\<close> as float64 numbers; the Euclidean distance between
  its first pixel and that colour is greater than 30, the distance computed in float64 is
  30 exactly, and the mask is 0 there.
\<close>

theorem compute_mask_exact_distance_counterexample:
  "rect 1 5 [[(85, 18, 2), (120, 25, 13), (120, 25, 13), (120, 25, 14), (120, 25, 14) :: rgb]]
   \<and> estimate_background
        [[(85, 18, 2), (120, 25, 13), (120, 25, 13), (120, 25, 14), (120, 25, 14) :: rgb]]
       = (113, 6642809450371482 / 2 ^ 48, 6305039478318694 / 2 ^ 49)
   \<and> compute_mask
        [[(85, 18, 2), (120, 25, 13), (120, 25, 13), (120, 25, 14), (120, 25, 14)]]
        (113, 6642809450371482 / 2 ^ 48, 6305039478318694 / 2 ^ 49) 30 ! 0 ! 0 = 0
   \<and> 30 < spec_distance (85, 18, 2)
             (113, 6642809450371482 / 2 ^ 48, 6305039478318694 / 2 ^ 49)"
proof -
  let ?arr = "[[(85, 18, 2), (120, 25, 13), (120, 25, 13), (120, 25, 14), (120, 25, 14) :: rgb]]"
  let ?bg = "(113, 6642809450371482 / 2 ^ 48, 6305039478318694 / 2 ^ 49) :: color"
  have r: "rect 1 5 ?arr" by (simp add: rect_def)
  have "compute_mask ?arr ?bg 30 ! 0 ! 0
          = (if 30 < float_distance (?arr ! 0 ! 0) ?bg then 255 else 0)"
    by (rule compute_mask_nth [OF r]) simp_all
  then have m: "compute_mask ?arr ?bg 30 ! 0 ! 0 = 0"
    by (simp only: nth_Cons_0 float_distance_example_5) simp
  from r estimate_background_example_5 m spec_distance_example_5 show ?thesis
    by (intro conjI)
qed

section \<open>The model hook\<close>

lemma convert_RGB_RGBA: "convert_RGB (ImageRGBA (convert_RGBA img)) = convert_RGB img"
  using rgb_of_convert_RGBA [of img] by (simp add: rgb_of_fun)

lemma local_mask_caught:
  "predict_mask dir name pil = Inl e \<Longrightarrow> is_Exception e \<Longrightarrow>
   local_mask dir name pil = Inr (fallback_mask pil)"
  by (simp add: local_mask_def)

lemma local_mask_propagates:
  "predict_mask dir name pil = Inl e \<Longrightarrow> \<not> is_Exception e \<Longrightarrow>
   local_mask dir name pil = Inl e"
  by (simp add: local_mask_def)


lemma process_local_propagates:
  "local_mask dir name (ImageRGBA (convert_RGBA upload)) = Inl e \<Longrightarrow>
   process_local K dir name upload = Inl e"
  by (simp add: process_local_def)

lemma predict_mask_NoPredict:
  "dir name = Some (Pickled NoPredict) \<Longrightarrow> predict_mask dir name pil = Inl RuntimeError"
  by (simp add: predict_mask_def load_pickle_model_def)

lemma predict_mask_missing:
  "dir name = None \<Longrightarrow> predict_mask dir name pil = Inl FileNotFoundError"
  by (simp add: predict_mask_def load_pickle_model_def)

lemma predict_mask_unpickle:
  "dir name = Some (Fails e) \<Longrightarrow>
   predict_mask dir name pil = Inl (if is_Exception e then RuntimeError else e)"
  by (simp add: predict_mask_def load_pickle_model_def)

lemma predict_mask_raises:
  "dir name = Some (Pickled (Predictor predict)) \<Longrightarrow> predict (convert_RGB pil) = Inl e \<Longrightarrow>
   predict_mask dir name pil = Inl e"
  by (simp add: predict_mask_def load_pickle_model_def)

lemma predict_mask_cast:
  "dir name = Some (Pickled (Predictor predict)) \<Longrightarrow> predict (convert_RGB pil) = Inr pred \<Longrightarrow>
   asarray_uint8 pred = Inl e \<Longrightarrow> predict_mask dir name pil = Inl e"
  by (simp add: predict_mask_def load_pickle_model_def)

lemma predict_mask_no_channel:
  "dir name = Some (Pickled (Predictor predict)) \<Longrightarrow> predict (convert_RGB pil) = Inr pred \<Longrightarrow>
   asarray_uint8 pred = Inr (Arr3 0 a) \<Longrightarrow> predict_mask dir name pil = Inl IndexError"
  by (simp add: predict_mask_def load_pickle_model_def first_channel_def)



text \<open>The failures of the \<^verbatim>\<open>try\<close> body are these and no others.\<close>

lemma predict_mask_failure_cases:
  "predict_mask dir name pil = Inl e \<longleftrightarrow>
     (dir name = None \<and> e = FileNotFoundError)
   \<or> (\<exists>e'. dir name = Some (Fails e') \<and> e = (if is_Exception e' then RuntimeError else e'))
   \<or> (dir name = Some (Pickled NoPredict) \<and> e = RuntimeError)
   \<or> (\<exists>predict. dir name = Some (Pickled (Predictor predict)) \<and>
        (predict (convert_RGB pil) = Inl e
       \<or> (\<exists>pred. predict (convert_RGB pil) = Inr pred \<and>
              (asarray_uint8 pred = Inl e
             \<or> (\<exists>a. asarray_uint8 pred = Inr (Arr3 0 a) \<and> e = IndexError)))))"
proof (cases "dir name")
  case None
  then show ?thesis by (auto simp: predict_mask_missing)
next
  case (Some pf)
  show ?thesis
  proof (cases pf)
    case (Fails e')
    with Some show ?thesis by (auto simp: predict_mask_unpickle)
  next
    case (Pickled m)
    show ?thesis
    proof (cases m)
      case NoPredict
      with Some Pickled show ?thesis by (auto simp: predict_mask_NoPredict)
    next
      case (Predictor predict)
      with Some Pickled have d: "dir name = Some (Pickled (Predictor predict))" by simp
      show ?thesis
      proof (cases "predict (convert_RGB pil)")
        case (Inl e')
        with d show ?thesis by (auto simp: predict_mask_raises)
      next
        case (Inr pred)
        show ?thesis
        proof (cases "asarray_uint8 pred")
          case (Inl e')
          with d Inr show ?thesis by (auto simp: predict_mask_cast)
        next
          case r: (Inr arr)
          with d Inr show ?thesis
            by (cases arr)
              (auto simp: predict_mask_def load_pickle_model_def first_channel_def)
        qed
      qed
    qed
  qed
qed

lemma fallback_mask_rect:
  assumes "rect h w (convert_RGBA upload)"
  shows "\<exists>m. fallback_mask (ImageRGBA (convert_RGBA upload)) = Arr2 m \<and> rect h w m
           \<and> (\<forall>row \<in> set m. \<forall>v \<in> set row. v = 0 \<or> v = 255)"
proof -
  have "rect h w (map (map rgb_of) (convert_RGBA upload))"
    by (rule rect_map [OF assms])
  then have r: "rect h w (convert_RGB upload)"
    by (simp only: rgb_of_convert_RGBA)
  let ?m = "compute_mask (convert_RGB upload) (estimate_background (convert_RGB upload)) 30"
  have "fallback_mask (ImageRGBA (convert_RGBA upload)) = Arr2 ?m"
    by (simp only: fallback_mask_def Let_def convert_RGB_RGBA)
  moreover have "rect h w ?m"
    unfolding compute_mask_def by (rule rect_map [OF r])
  moreover have "\<forall>row \<in> set ?m. \<forall>v \<in> set row. v = 0 \<or> v = 255"
    using compute_mask_values by blast
  ultimately show ?thesis by blast
qed

lemma process_local_Arr2:
  assumes "local_mask dir name (ImageRGBA (convert_RGBA upload)) = Inr (Arr2 m)"
    and "rect h w (convert_RGBA upload)" and "rect h w m"
  shows "\<exists>out. process_local K dir name upload = Inr (Success out)
             \<and> rect h w out
             \<and> map (map rgb_of) out = convert_RGB upload
             \<and> map (map alpha_of) out = gaussian_blur K m"
proof -
  let ?pil = "ImageRGBA (convert_RGBA upload)"
  have "rect h w (convert_RGBA ?pil)" using assms(2) by simp
  from apply_mask_and_save_Arr2 [OF this assms(3), of K] obtain out where
    out: "apply_mask_and_save K ?pil (Arr2 m) = Inr out" "rect h w out"
         "map (map rgb_of) out = convert_RGB ?pil"
         "map (map alpha_of) out = gaussian_blur K m"
    by blast
  have "process_local K dir name upload = Inr (Success out)"
    by (simp add: process_local_def Let_def assms(1) out(1))
  with out show ?thesis by (simp only: convert_RGB_RGBA) blast
qed

text \<open>
  Claim C3, as amended. For an uploaded image of height and width at least 1, when the body
  of the \<^verbatim>\<open>try\<close> fails with an exception \<open>e\<close> (the model file is missing or cannot be
  unpickled, the object has no \<^verbatim>\<open>predict\<close>, \<^verbatim>\<open>predict\<close> raises, or its result cannot
  be converted or indexed) and \<open>e\<close> is an \<^verbatim>\<open>Exception\<close>, the mask is the one of
  \<^verbatim>\<open>fallback_mask\<close>, which has the height and width of the image and values 0 and 255
  only, and \<^verbatim>\<open>process_local\<close> answers with success. When \<open>e\<close> is no \<^verbatim>\<open>Exception\<close>,
  it leaves \<^verbatim>\<open>process_local\<close>.
\<close>

theorem model_failure_falls_back:
  assumes "rect h w (convert_RGBA upload)" and "1 \<le> h" and "1 \<le> w"
    and "predict_mask dir name (ImageRGBA (convert_RGBA upload)) = Inl e"
  shows "(is_Exception e \<longrightarrow>
            local_mask dir name (ImageRGBA (convert_RGBA upload))
              = Inr (fallback_mask (ImageRGBA (convert_RGBA upload)))
          \<and> (\<exists>m out. fallback_mask (ImageRGBA (convert_RGBA upload)) = Arr2 m
                \<and> rect h w m
                \<and> (\<forall>row \<in> set m. \<forall>v \<in> set row. v = 0 \<or> v = 255)
                \<and> process_local K dir name upload = Inr (Success out)
                \<and> rect h w out
                \<and> map (map alpha_of) out = gaussian_blur K m))
       \<and> (\<not> is_Exception e \<longrightarrow> process_local K dir name upload = Inl e)"
proof (intro conjI impI)
  let ?pil = "ImageRGBA (convert_RGBA upload)"
  assume x: "is_Exception e"
  show l: "local_mask dir name ?pil = Inr (fallback_mask ?pil)"
    by (rule local_mask_caught [OF assms(4) x])
  from fallback_mask_rect [OF assms(1)] obtain m where
    m: "fallback_mask ?pil = Arr2 m" "rect h w m"
       "\<forall>row \<in> set m. \<forall>v \<in> set row. v = 0 \<or> v = 255"
    by blast
  from l m(1) have "local_mask dir name ?pil = Inr (Arr2 m)" by simp
  from process_local_Arr2 [OF this assms(1) m(2), of K] obtain out where
    "process_local K dir name upload = Inr (Success out)" "rect h w out"
    "map (map alpha_of) out = gaussian_blur K m"
    by blast
  with m show "\<exists>m out. fallback_mask ?pil = Arr2 m
                \<and> rect h w m
                \<and> (\<forall>row \<in> set m. \<forall>v \<in> set row. v = 0 \<or> v = 255)
                \<and> process_local K dir name upload = Inr (Success out)
                \<and> rect h w out
                \<and> map (map alpha_of) out = gaussian_blur K m"
    by blast
next
  assume "\<not> is_Exception e"
  with assms(4) have "local_mask dir name (ImageRGBA (convert_RGBA upload)) = Inl e"
    by (rule local_mask_propagates)
  then show "process_local K dir name upload = Inl e"
    by (rule process_local_propagates)
qed

text \<open>An unpickled object without \<^verbatim>\<open>predict\<close>.\<close>

theorem model_failure_falls_back_witness:
  "rect 1 1 (convert_RGBA (ImageRGB [[(9, 9, 9)]]))
   \<and> predict_mask (Map.empty(''segmenter.pkl'' \<mapsto> Pickled NoPredict)) ''segmenter.pkl''
         (ImageRGBA (convert_RGBA (ImageRGB [[(9, 9, 9)]]))) = Inl RuntimeError
   \<and> is_Exception RuntimeError
   \<and> (\<exists>out. process_local (\<lambda>g i j. g ! i ! j)
             (Map.empty(''segmenter.pkl'' \<mapsto> Pickled NoPredict)) ''segmenter.pkl''
             (ImageRGB [[(9, 9, 9)]]) = Inr (Success out))"
proof -
  have r: "rect 1 1 (convert_RGBA (ImageRGB [[(9, 9, 9)]]))"
    by (simp add: rect_def)
  have f: "predict_mask (Map.empty(''segmenter.pkl'' \<mapsto> Pickled NoPredict)) ''segmenter.pkl''
         (ImageRGBA (convert_RGBA (ImageRGB [[(9, 9, 9)]]))) = Inl RuntimeError"
    by (rule predict_mask_NoPredict) simp
  have x: "is_Exception RuntimeError" by simp
  from model_failure_falls_back [OF r _ _ f, of "\<lambda>g i j. g ! i ! j"] r f x
  show ?thesis by auto
qed

text \<open>
  Claim C3 as stated fails: a model whose \<^verbatim>\<open>predict\<close> raises \<^verbatim>\<open>KeyboardInterrupt\<close> makes
  the inference fail, and the exception reaches the caller of \<^verbatim>\<open>process_local\<close>.
\<close>

theorem model_failure_base_exception_counterexample:
  "predict_mask
     (Map.empty(''segmenter.pkl'' \<mapsto> Pickled (Predictor (\<lambda>arr. Inl KeyboardInterrupt))))
     ''segmenter.pkl'' (ImageRGBA (convert_RGBA (ImageRGB [[(9, 9, 9)]]))) = Inl KeyboardInterrupt
   \<and> process_local (\<lambda>g i j. g ! i ! j)
       (Map.empty(''segmenter.pkl'' \<mapsto> Pickled (Predictor (\<lambda>arr. Inl KeyboardInterrupt))))
       ''segmenter.pkl'' (ImageRGB [[(9, 9, 9)]]) = Inl KeyboardInterrupt"
proof -
  let ?dir = "Map.empty(''segmenter.pkl'' \<mapsto>
                Pickled (Predictor (\<lambda>arr :: rgb grid. (Inl KeyboardInterrupt :: exn + pyobj))))"
  let ?upload = "ImageRGB [[(9, 9, 9)]]"
  have f: "predict_mask ?dir ''segmenter.pkl'' (ImageRGBA (convert_RGBA ?upload))
             = Inl KeyboardInterrupt"
    by (simp add: predict_mask_def load_pickle_model_def)
  then have "local_mask ?dir ''segmenter.pkl'' (ImageRGBA (convert_RGBA ?upload))
             = Inl KeyboardInterrupt"
    by (rule local_mask_propagates) simp
  then have "process_local (\<lambda>g i j. g ! i ! j) ?dir ''segmenter.pkl'' ?upload
             = Inl KeyboardInterrupt"
    by (rule process_local_propagates)
  with f show ?thesis by (intro conjI)
qed




lemma cube_map: "cube h w c a \<Longrightarrow> cube h w c (map (map (map f)) a)"
  by (simp add: cube_def rect_def list_all_iff)








section \<open>The cast of the model's mask\<close>

















end
